theory Spec2Isabelle
  imports Complex_Main
begin

section \<open>The inventory application, embedded\<close>

text \<open>
  The application is one Python module, \<^verbatim>\<open>app.py\<close>: two tables (\<^verbatim>\<open>User\<close>,
  \<^verbatim>\<open>Item\<close>), three forms and eight route handlers. Each handler becomes a function
  from the state before the request to a result and the state after it. The state holds
  the two tables, the session of the requesting client, the flashed messages and a log
  of the queries sent to the store.

  Conventions.
  \<^item> A Python \<^verbatim>\<open>str\<close> is a \<open>string\<close>; one \<open>char\<close> stands for one code point (the
    model covers code points below 256).
  \<^item> A Python \<^verbatim>\<open>int\<close> is an \<open>int\<close>; a primary key is a \<open>nat\<close>.
  \<^item> A Python \<^verbatim>\<open>float\<close> is a \<open>pyfloat\<close>: a finite value, carried as a real number, one
    of the two infinities, or NaN. The handlers only store a price, test it for truth
    (\<^verbatim>\<open>x != 0\<close>) and print it; they never compute with it.
  \<^item> \<^verbatim>\<open>None\<close> is \<open>None\<close>; an uncaught exception is \<open>Inl\<close> of an \<open>error\<close>.
  \<^item> The text a form field carries has already been through the field's coercion
    (\<^verbatim>\<open>int(..)\<close>, \<^verbatim>\<open>float(..)\<close>): a numeric field arrives as \<open>Absent\<close>,
    \<open>Unparsable\<close> (the coercion raised \<^verbatim>\<open>ValueError\<close>) or \<open>Parsed v\<close>.
  \<^item> The store is SQLite: an integer it is given must fit 64 bits, signed, and it
    keeps NaN as \<^verbatim>\<open>NULL\<close>.
\<close>

subsection \<open>Models: \<^verbatim>\<open>User\<close> and \<^verbatim>\<open>Item\<close>\<close>

record user =
  user_id :: nat
  username :: string
  password_hash :: string

datatype pyfloat = Finite real | PosInf | NegInf | NaN

record item =
  item_id :: nat
  name :: string
  quantity :: int
  price :: pyfloat

subsection \<open>Errors, responses, state\<close>

datatype error =
    NotFound          \<comment> \<open>\<^verbatim>\<open>abort(404)\<close>, raised by \<^verbatim>\<open>get_or_404\<close>\<close>
  | TypeError
  | AttributeError
  | IntegrityError    \<comment> \<open>a \<^verbatim>\<open>NOT NULL\<close> or \<^verbatim>\<open>UNIQUE\<close> constraint failed at commit\<close>
  | OverflowError     \<comment> \<open>\<^verbatim>\<open>Python int too large to convert to SQLite INTEGER\<close>\<close>

text \<open>A flashed text: \<open>emojize s\<close> is \<^verbatim>\<open>emoji.emojize(s)\<close>, \<open>plain s\<close> is \<^verbatim>\<open>s\<close>.\<close>

datatype message = emojize string | plain string

datatype template_context =
    ctx_items "item list"    \<comment> \<open>\<^verbatim>\<open>items=items\<close>\<close>
  | ctx_form                 \<comment> \<open>\<^verbatim>\<open>form=form\<close>\<close>
  | ctx_form_action string   \<comment> \<open>\<^verbatim>\<open>form=form, action=..\<close>\<close>

datatype response =
    redirect string                      \<comment> \<open>\<^verbatim>\<open>redirect(url_for(endpoint))\<close>\<close>
  | render_template string template_context
  | send_file string string string bool
      \<comment> \<open>the bytes, \<^verbatim>\<open>mimetype\<close>, \<^verbatim>\<open>attachment_filename\<close>, \<^verbatim>\<open>as_attachment\<close>\<close>

type_synonym result = "error + response"

text \<open>
  The statements a request had the store run, in order. A statement that fails (a value
  that cannot be bound, a constraint) is not logged.
\<close>

datatype db_query =
    Q_user_get nat
  | Q_user_filter_by "string option"
  | Q_user_insert
  | Q_item_all
  | Q_item_get nat
  | Q_item_insert
  | Q_item_update nat
  | Q_item_delete nat

fun on_item_table :: "db_query \<Rightarrow> bool" where
  "on_item_table Q_item_all = True"
| "on_item_table (Q_item_get i) = True"
| "on_item_table Q_item_insert = True"
| "on_item_table (Q_item_update i) = True"
| "on_item_table (Q_item_delete i) = True"
| "on_item_table q = False"

record state =
  users :: "user list"             \<comment> \<open>the \<^verbatim>\<open>User\<close> table, in rowid order\<close>
  items :: "item list"             \<comment> \<open>the \<^verbatim>\<open>Item\<close> table, in rowid order\<close>
  session_user_id :: "nat option"  \<comment> \<open>the user id in the client's session cookie\<close>
  flashes :: "(message \<times> string) list"
  db_log :: "db_query list"

definition flash :: "message \<Rightarrow> string \<Rightarrow> state \<Rightarrow> state" where
  "flash msg category st = st\<lparr>flashes := flashes st @ [(msg, category)]\<rparr>"

definition log_query :: "db_query \<Rightarrow> state \<Rightarrow> state" where
  "log_query q st = st\<lparr>db_log := db_log st @ [q]\<rparr>"

text \<open>The queries sent between an earlier state and a later one.\<close>

definition queries_since :: "state \<Rightarrow> state \<Rightarrow> db_query list" where
  "queries_since st st' = drop (length (db_log st)) (db_log st')"

subsection \<open>The store\<close>

text \<open>
  Both tables have an integer primary key and nothing else that orders them, so the
  store gives a new row one more than the largest key in use (1 in an empty table) and
  a query without \<^verbatim>\<open>ORDER BY\<close> walks the rows by key. A new row is therefore the last.
  (A table whose largest key is already 2^63 - 1, where the store would pick an unused
  key at random, is outside the model.)

  An integer bound to a statement must lie in the signed 64-bit range; otherwise the
  driver raises \<^verbatim>\<open>OverflowError\<close> before the store sees the statement. This concerns
  the item id of a URL and the quantity of a form, both chosen by the client. The id
  that \<^verbatim>\<open>load_user\<close> looks up comes from the signed session cookie, which only
  \<^verbatim>\<open>login_user\<close> writes, from a row of the table.
\<close>

definition sqlite_int :: "int \<Rightarrow> bool" where
  "sqlite_int i = (- (2 ^ 63) \<le> i \<and> i < 2 ^ 63)"

definition next_id :: "nat list \<Rightarrow> nat" where
  "next_id ids = Suc (fold max ids 0)"

definition User_query_get :: "nat \<Rightarrow> state \<Rightarrow> user option \<times> state" where
  "User_query_get uid st =
     (find (\<lambda>u. user_id u = uid) (users st), log_query (Q_user_get uid) st)"

definition User_query_filter_by_first :: "string option \<Rightarrow> state \<Rightarrow> user option \<times> state" where
  "User_query_filter_by_first uname st =
     (find (\<lambda>u. Some (username u) = uname) (users st), log_query (Q_user_filter_by uname) st)"

text \<open>
  \<^verbatim>\<open>db.session.add(user); db.session.commit()\<close>. Both columns are
  \<^verbatim>\<open>nullable=False\<close> and \<^verbatim>\<open>username\<close> is \<^verbatim>\<open>unique=True\<close>.
\<close>

definition User_insert :: "string option \<Rightarrow> string option \<Rightarrow> state \<Rightarrow> error + state" where
  "User_insert uname pwhash st =
     (case (uname, pwhash) of
        (Some n, Some h) \<Rightarrow>
          if find (\<lambda>u. username u = n) (users st) \<noteq> None then Inl IntegrityError
          else Inr (log_query Q_user_insert
                 (st\<lparr>users := users st @
                    [\<lparr>user_id = next_id (map user_id (users st)),
                      username = n, password_hash = h\<rparr>]\<rparr>))
      | _ \<Rightarrow> Inl IntegrityError)"

definition Item_query_all :: "state \<Rightarrow> item list \<times> state" where
  "Item_query_all st = (items st, log_query Q_item_all st)"

definition Item_query_get_or_404 :: "nat \<Rightarrow> state \<Rightarrow> (error + item) \<times> state" where
  "Item_query_get_or_404 iid st =
     (if \<not> sqlite_int (int iid) then (Inl OverflowError, st)
      else case find (\<lambda>i. item_id i = iid) (items st) of
        None \<Rightarrow> (Inl NotFound, log_query (Q_item_get iid) st)
      | Some i \<Rightarrow> (Inr i, log_query (Q_item_get iid) st))"

text \<open>
  \<^verbatim>\<open>db.session.add(item); db.session.commit()\<close>. Binding the quantity comes first: out
  of range, it raises \<^verbatim>\<open>OverflowError\<close>. The three columns are \<^verbatim>\<open>nullable=False\<close>, and
  a NaN price reaches the store as \<^verbatim>\<open>NULL\<close>. A failed commit writes nothing.
\<close>

definition Item_insert :: "string option \<Rightarrow> int option \<Rightarrow> pyfloat option \<Rightarrow> state \<Rightarrow> error + state" where
  "Item_insert n q p st =
     (if (case q of None \<Rightarrow> False | Some q' \<Rightarrow> \<not> sqlite_int q') then Inl OverflowError
      else case (n, q, p) of
        (Some n', Some q', Some p') \<Rightarrow>
          if p' = NaN then Inl IntegrityError
          else Inr (log_query Q_item_insert
            (st\<lparr>items := items st @
               [\<lparr>item_id = next_id (map item_id (items st)),
                 name = n', quantity = q', price = p'\<rparr>]\<rparr>))
      | _ \<Rightarrow> Inl IntegrityError)"

text \<open>
  The commit after the three attribute assignments of \<^verbatim>\<open>edit_item\<close> to the loaded
  item \<open>it\<close>. The session writes the attributes whose value changed, in one \<^verbatim>\<open>UPDATE\<close>
  by key, and writes nothing when none changed. A changed quantity out of range raises
  \<^verbatim>\<open>OverflowError\<close>; a changed attribute that is \<^verbatim>\<open>None\<close>, or a price changed to NaN,
  fails the \<^verbatim>\<open>NOT NULL\<close> constraint. A failed commit writes nothing.
\<close>

definition Item_update :: "item \<Rightarrow> string option \<Rightarrow> int option \<Rightarrow> pyfloat option \<Rightarrow> state \<Rightarrow> error + state" where
  "Item_update it n q p st =
     (if n = Some (name it) \<and> q = Some (quantity it) \<and> p = Some (price it) then Inr st
      else if q \<noteq> Some (quantity it)
              \<and> (case q of None \<Rightarrow> False | Some q' \<Rightarrow> \<not> sqlite_int q')
      then Inl OverflowError
      else case (n, q, p) of
        (Some n', Some q', Some p') \<Rightarrow>
          if p \<noteq> Some (price it) \<and> p' = NaN then Inl IntegrityError
          else Inr (log_query (Q_item_update (item_id it))
            (st\<lparr>items :=
               map (\<lambda>i. if item_id i = item_id it
                         then i\<lparr>name := n', quantity := q', price := p'\<rparr> else i)
                 (items st)\<rparr>))
      | _ \<Rightarrow> Inl IntegrityError)"

text \<open>\<^verbatim>\<open>db.session.delete(item); db.session.commit()\<close>: one \<^verbatim>\<open>DELETE\<close> by key.\<close>

definition Item_delete :: "nat \<Rightarrow> state \<Rightarrow> state" where
  "Item_delete iid st =
     log_query (Q_item_delete iid) (st\<lparr>items := filter (\<lambda>i. item_id i \<noteq> iid) (items st)\<rparr>)"

subsection \<open>The forms library: fields and validators\<close>

datatype http_method = GET | POST

datatype 'a formvalue = Absent | Unparsable | Parsed 'a

record 'd request =
  request_method :: http_method
  csrf_valid :: bool      \<comment> \<open>the form's \<^verbatim>\<open>csrf_token\<close> field validates\<close>
  formdata :: 'd

text \<open>
  A field first takes the attribute of the object the form was built from (\<^verbatim>\<open>obj=\<close>,
  \<open>None\<close> without one); a value in the submitted form replaces it. A numeric field
  whose text does not parse is left \<^verbatim>\<open>None\<close> and keeps a processing error, which alone
  makes the field invalid.
\<close>

definition process_string :: "string option \<Rightarrow> string option \<Rightarrow> string option" where
  "process_string obj_data submitted =
     (case submitted of Some v \<Rightarrow> Some v | None \<Rightarrow> obj_data)"

definition process_number :: "'a option \<Rightarrow> 'a formvalue \<Rightarrow> 'a option \<times> bool" where
  "process_number obj_data submitted =
     (case submitted of
        Absent \<Rightarrow> (obj_data, False)
      | Unparsable \<Rightarrow> (None, True)
      | Parsed v \<Rightarrow> (Some v, False))"

text \<open>\<^verbatim>\<open>str.strip()\<close> removes the white space of \<^verbatim>\<open>str.isspace\<close> at both ends.\<close>

definition py_isspace :: "char \<Rightarrow> bool" where
  "py_isspace c = (c \<in> set [CHR 0x09, CHR 0x0A, CHR 0x0B, CHR 0x0C, CHR 0x0D,
     CHR 0x1C, CHR 0x1D, CHR 0x1E, CHR 0x1F, CHR 0x20, CHR 0x85, CHR 0xA0])"

definition strip :: "string \<Rightarrow> string" where
  "strip s = rev (dropWhile py_isspace (rev (dropWhile py_isspace s)))"

text \<open>
  \<^verbatim>\<open>DataRequired\<close> passes when the field's data is true in Python's sense, and not
  blank when it is a string: \<^verbatim>\<open>field.data and (not isinstance(field.data, str) or
  field.data.strip())\<close>. So \<^verbatim>\<open>None\<close>, \<^verbatim>\<open>''\<close>, \<^verbatim>\<open>0\<close> and \<^verbatim>\<open>0.0\<close> all fail; an infinity
  and NaN are true.
\<close>

definition DataRequired_str :: "string option \<Rightarrow> bool" where
  "DataRequired_str d = (case d of None \<Rightarrow> False | Some s \<Rightarrow> s \<noteq> [] \<and> strip s \<noteq> [])"

definition DataRequired_int :: "int option \<Rightarrow> bool" where
  "DataRequired_int d = (case d of None \<Rightarrow> False | Some n \<Rightarrow> n \<noteq> 0)"

definition DataRequired_float :: "pyfloat option \<Rightarrow> bool" where
  "DataRequired_float d = (case d of None \<Rightarrow> False | Some x \<Rightarrow> x \<noteq> Finite 0)"

text \<open>\<^verbatim>\<open>Length(min, max)\<close>: the length of \<^verbatim>\<open>None\<close> counts as 0; \<^verbatim>\<open>max = -1\<close> is no bound.\<close>

definition data_length :: "string option \<Rightarrow> nat" where
  "data_length d = (case d of None \<Rightarrow> 0 | Some s \<Rightarrow> length s)"

definition Length_validator :: "int \<Rightarrow> int \<Rightarrow> string option \<Rightarrow> bool" where
  "Length_validator mn mx d =
     (let l = int (data_length d) in mn \<le> l \<and> (mx = -1 \<or> l \<le> mx))"

definition EqualTo :: "string option \<Rightarrow> string option \<Rightarrow> bool" where
  "EqualTo other d = (d = other)"

text \<open>\<^verbatim>\<open>validate_on_submit()\<close>: the request is a submission and every field validates.\<close>

definition validate_on_submit :: "'d request \<Rightarrow> bool \<Rightarrow> bool" where
  "validate_on_submit req fields_valid = (request_method req = POST \<and> csrf_valid req \<and> fields_valid)"

record LoginForm =
  login_username :: "string option"
  login_password :: "string option"

definition LoginForm_validate :: "LoginForm \<Rightarrow> bool" where
  "LoginForm_validate f =
     ((DataRequired_str (login_username f) \<and> Length_validator 4 150 (login_username f))
      \<and> DataRequired_str (login_password f))"

record RegisterForm =
  reg_username :: "string option"
  reg_password :: "string option"
  reg_confirm_password :: "string option"

definition RegisterForm_validate :: "RegisterForm \<Rightarrow> bool" where
  "RegisterForm_validate f =
     ((DataRequired_str (reg_username f) \<and> Length_validator 4 150 (reg_username f))
      \<and> (DataRequired_str (reg_password f) \<and> Length_validator 4 (-1) (reg_password f))
      \<and> (DataRequired_str (reg_confirm_password f)
           \<and> EqualTo (reg_password f) (reg_confirm_password f)))"

text \<open>What a client submits to an \<^verbatim>\<open>ItemForm\<close>, and the form after processing.\<close>

record ItemForm_input =
  in_name :: "string option"
  in_quantity :: "int formvalue"
  in_price :: "pyfloat formvalue"

record ItemForm =
  form_name :: "string option"
  form_quantity :: "int option \<times> bool"
  form_price :: "pyfloat option \<times> bool"

definition ItemForm_process :: "item option \<Rightarrow> ItemForm_input \<Rightarrow> ItemForm" where
  "ItemForm_process obj inp =
     \<lparr>form_name = process_string (map_option name obj) (in_name inp),
      form_quantity = process_number (map_option quantity obj) (in_quantity inp),
      form_price = process_number (map_option price obj) (in_price inp)\<rparr>"

definition ItemForm_validate :: "ItemForm \<Rightarrow> bool" where
  "ItemForm_validate f =
     (DataRequired_str (form_name f)
      \<and> (\<not> snd (form_quantity f) \<and> DataRequired_int (fst (form_quantity f)))
      \<and> (\<not> snd (form_price f) \<and> DataRequired_float (fst (form_price f))))"

definition LoginForm_process :: "LoginForm \<Rightarrow> LoginForm" where
  "LoginForm_process inp =
     \<lparr>login_username = process_string None (login_username inp),
      login_password = process_string None (login_password inp)\<rparr>"

definition RegisterForm_process :: "RegisterForm \<Rightarrow> RegisterForm" where
  "RegisterForm_process inp =
     \<lparr>reg_username = process_string None (reg_username inp),
      reg_password = process_string None (reg_password inp),
      reg_confirm_password = process_string None (reg_confirm_password inp)\<rparr>"

subsection \<open>Password hashing and the session\<close>

text \<open>
  The two functions of \<^verbatim>\<open>werkzeug.security\<close> are parameters of the handlers that call
  them: \<open>generate_password_hash\<close> is the salted hash as the request computes it.
\<close>

record security =
  generate_password_hash :: "string \<Rightarrow> string"
  check_password_hash :: "string \<Rightarrow> string \<Rightarrow> bool"

definition load_user :: "nat \<Rightarrow> state \<Rightarrow> user option \<times> state" where
  "load_user uid st = User_query_get uid st"

text \<open>
  \<^verbatim>\<open>current_user\<close>: the user the session names, loaded by \<^verbatim>\<open>load_user\<close>; anonymous
  (\<open>None\<close>) when the session names nobody or nobody has that id.
\<close>

definition current_user :: "state \<Rightarrow> user option \<times> state" where
  "current_user st =
     (case session_user_id st of None \<Rightarrow> (None, st) | Some uid \<Rightarrow> load_user uid st)"

definition is_authenticated :: "state \<Rightarrow> bool" where
  "is_authenticated st = (fst (current_user st) \<noteq> None)"

definition login_user :: "user \<Rightarrow> state \<Rightarrow> state" where
  "login_user u st = st\<lparr>session_user_id := Some (user_id u)\<rparr>"

definition logout_user :: "state \<Rightarrow> state" where
  "logout_user st = st\<lparr>session_user_id := None\<rparr>"

text \<open>\<^verbatim>\<open>login_manager.unauthorized()\<close> with \<^verbatim>\<open>login_view = 'login'\<close>.\<close>

definition unauthorized :: "state \<Rightarrow> result \<times> state" where
  "unauthorized st =
     (Inr (redirect ''login''), flash (plain ''Please log in to access this page.'') ''message'' st)"

definition login_required :: "(state \<Rightarrow> result \<times> state) \<Rightarrow> state \<Rightarrow> result \<times> state" where
  "login_required view st =
     (case current_user st of
        (None, st1) \<Rightarrow> unauthorized st1
      | (Some u, st1) \<Rightarrow> view st1)"

subsection \<open>Routes\<close>

definition index :: "state \<Rightarrow> result \<times> state" where
  "index = login_required (\<lambda>st.
     case Item_query_all st of
       (its, st1) \<Rightarrow> (Inr (render_template ''index.html'' (ctx_items its)), st1))"

definition login :: "security \<Rightarrow> LoginForm request \<Rightarrow> state \<Rightarrow> result \<times> state" where
  "login sec req st =
     (case current_user st of
        (Some u, st1) \<Rightarrow> (Inr (redirect ''index''), st1)
      | (None, st1) \<Rightarrow>
          (let form = LoginForm_process (formdata req) in
           if validate_on_submit req (LoginForm_validate form) then
             (case User_query_filter_by_first (login_username form) st1 of
                (None, st2) \<Rightarrow>
                  (Inr (render_template ''login.html'' ctx_form),
                   flash (emojize ''Invalid username or password. :warning:'') ''danger'' st2)
              | (Some usr, st2) \<Rightarrow>
                  (case login_password form of
                     None \<Rightarrow> (Inl AttributeError, st2)
                   | Some pw \<Rightarrow>
                       if check_password_hash sec (password_hash usr) pw then
                         (Inr (redirect ''index''),
                          flash (emojize ''Logged in successfully! :thumbs_up:'') ''success''
                            (login_user usr st2))
                       else
                         (Inr (render_template ''login.html'' ctx_form),
                          flash (emojize ''Invalid username or password. :warning:'') ''danger''
                            st2)))
           else (Inr (render_template ''login.html'' ctx_form), st1)))"

definition logout :: "state \<Rightarrow> result \<times> state" where
  "logout = login_required (\<lambda>st.
     (Inr (redirect ''login''),
      flash (emojize ''You have been logged out. :wave:'') ''info'' (logout_user st)))"

definition register :: "security \<Rightarrow> RegisterForm request \<Rightarrow> state \<Rightarrow> result \<times> state" where
  "register sec req st =
     (case current_user st of
        (Some u, st1) \<Rightarrow> (Inr (redirect ''index''), st1)
      | (None, st1) \<Rightarrow>
          (let form = RegisterForm_process (formdata req) in
           if validate_on_submit req (RegisterForm_validate form) then
             (case User_query_filter_by_first (reg_username form) st1 of
                (Some existing_user, st2) \<Rightarrow>
                  (Inr (redirect ''register''),
                   flash (emojize ''Username already exists. :no_entry_sign:'') ''danger'' st2)
              | (None, st2) \<Rightarrow>
                  (case reg_password form of
                     None \<Rightarrow> (Inl AttributeError, st2)
                   | Some pw \<Rightarrow>
                       (case User_insert (reg_username form)
                               (Some (generate_password_hash sec pw)) st2 of
                          Inl e \<Rightarrow> (Inl e, st2)
                        | Inr st3 \<Rightarrow>
                            (Inr (redirect ''login''),
                             flash (emojize ''Registration successful! Please log in. :smile:'')
                               ''success'' st3))))
           else (Inr (render_template ''register.html'' ctx_form), st1)))"

definition add_item :: "ItemForm_input request \<Rightarrow> state \<Rightarrow> result \<times> state" where
  "add_item req = login_required (\<lambda>st.
     let form = ItemForm_process None (formdata req) in
     if validate_on_submit req (ItemForm_validate form) then
       (case Item_insert (form_name form) (fst (form_quantity form)) (fst (form_price form)) st of
          Inl e \<Rightarrow> (Inl e, st)
        | Inr st1 \<Rightarrow>
            (Inr (redirect ''index''),
             flash (emojize ''Item added successfully! :tada:'') ''success'' st1))
     else (Inr (render_template ''item_form.html'' (ctx_form_action ''Add'')), st))"

definition edit_item :: "nat \<Rightarrow> ItemForm_input request \<Rightarrow> state \<Rightarrow> result \<times> state" where
  "edit_item iid req = login_required (\<lambda>st.
     case Item_query_get_or_404 iid st of
       (Inl e, st1) \<Rightarrow> (Inl e, st1)
     | (Inr it, st1) \<Rightarrow>
         (let form = ItemForm_process (Some it) (formdata req) in
          if validate_on_submit req (ItemForm_validate form) then
            (case Item_update it (form_name form) (fst (form_quantity form))
                    (fst (form_price form)) st1 of
               Inl e \<Rightarrow> (Inl e, st1)
             | Inr st2 \<Rightarrow>
                 (Inr (redirect ''index''),
                  flash (emojize ''Item updated successfully! :pencil2:'') ''success'' st2))
          else (Inr (render_template ''item_form.html'' (ctx_form_action ''Edit'')), st1)))"

definition delete_item :: "nat \<Rightarrow> state \<Rightarrow> result \<times> state" where
  "delete_item iid = login_required (\<lambda>st.
     case Item_query_get_or_404 iid st of
       (Inl e, st1) \<Rightarrow> (Inl e, st1)
     | (Inr it, st1) \<Rightarrow>
         (Inr (redirect ''index''),
          flash (emojize ''Item deleted successfully. :wastebasket:'') ''success''
            (Item_delete (item_id it) st1)))"

subsection \<open>Export\<close>

text \<open>
  \<^verbatim>\<open>csv.writer\<close> with the default dialect: fields joined by commas, a field quoted
  when it holds a comma, a quote or a line break, quotes doubled inside it, each row
  ended by \<^verbatim>\<open>\r\n\<close>. A number is written as \<^verbatim>\<open>str\<close> prints it; how a float prints is a
  parameter, \<open>repr_float\<close>.
\<close>

definition digit_char :: "nat \<Rightarrow> char" where
  "digit_char d = char_of (48 + d)"

function str_nat :: "nat \<Rightarrow> string" where
  "str_nat n = (if n < 10 then [digit_char n] else str_nat (n div 10) @ [digit_char (n mod 10)])"
  by pat_completeness auto
termination
  by (relation "measure id") auto

definition str_int :: "int \<Rightarrow> string" where
  "str_int i = (if i < 0 then CHR ''-'' # str_nat (nat (- i)) else str_nat (nat i))"

datatype csv_value = V_int int | V_str string | V_float pyfloat

fun csv_text :: "(pyfloat \<Rightarrow> string) \<Rightarrow> csv_value \<Rightarrow> string" where
  "csv_text repr_float (V_int i) = str_int i"
| "csv_text repr_float (V_str s) = s"
| "csv_text repr_float (V_float x) = repr_float x"

definition csv_special :: "char \<Rightarrow> bool" where
  "csv_special c = (c = CHR '','' \<or> c = CHR 0x22 \<or> c = CHR 0x0D \<or> c = CHR 0x0A)"

definition csv_quote :: "string \<Rightarrow> string" where
  "csv_quote f =
     (if list_ex csv_special f
      then [CHR 0x22] @ concat (map (\<lambda>c. if c = CHR 0x22 then [c, c] else [c]) f) @ [CHR 0x22]
      else f)"

fun csv_join :: "string list \<Rightarrow> string" where
  "csv_join [] = []"
| "csv_join [f] = f"
| "csv_join (f # fs) = f @ '','' @ csv_join fs"

definition csv_format_row :: "string list \<Rightarrow> string" where
  "csv_format_row row =
     (if row = [[]] then [CHR 0x22, CHR 0x22] else csv_join (map csv_quote row))
     @ [CHR 0x0D, CHR 0x0A]"

text \<open>
  The writer hands each row to the \<^verbatim>\<open>write\<close> of its file object as a \<^verbatim>\<open>str\<close>. The
  file object here is an \<^verbatim>\<open>io.BytesIO\<close>, whose \<^verbatim>\<open>write\<close> takes bytes only and raises
  \<^verbatim>\<open>TypeError\<close> on a \<^verbatim>\<open>str\<close>. This is Python 3, where text and bytes are different
  types; the module is modelled under Python 3 throughout.
\<close>

datatype pyobject = py_str string | py_bytes string

fun BytesIO_write :: "string \<Rightarrow> pyobject \<Rightarrow> error + string" where
  "BytesIO_write buf (py_bytes b) = Inr (buf @ b)"
| "BytesIO_write buf (py_str s) = Inl TypeError"

definition writerow :: "(pyfloat \<Rightarrow> string) \<Rightarrow> string \<Rightarrow> csv_value list \<Rightarrow> error + string" where
  "writerow repr_float output row =
     BytesIO_write output (py_str (csv_format_row (map (csv_text repr_float) row)))"

fun write_item_rows :: "(pyfloat \<Rightarrow> string) \<Rightarrow> string \<Rightarrow> item list \<Rightarrow> error + string" where
  "write_item_rows repr_float output [] = Inr output"
| "write_item_rows repr_float output (i # its) =
     (case writerow repr_float output
             [V_int (int (item_id i)), V_str (name i), V_int (quantity i), V_float (price i)] of
        Inl e \<Rightarrow> Inl e
      | Inr output' \<Rightarrow> write_item_rows repr_float output' its)"

definition export_items :: "(pyfloat \<Rightarrow> string) \<Rightarrow> state \<Rightarrow> result \<times> state" where
  "export_items repr_float = login_required (\<lambda>st.
     case Item_query_all st of
       (its, st1) \<Rightarrow>
         (case writerow repr_float []
                 [V_str ''ID'', V_str ''Name'', V_str ''Quantity'', V_str ''Price''] of
            Inl e \<Rightarrow> (Inl e, st1)
          | Inr output \<Rightarrow>
              (case write_item_rows repr_float output its of
                 Inl e \<Rightarrow> (Inl e, st1)
               | Inr output' \<Rightarrow>
                   (Inr (send_file output' ''text/csv'' ''inventory.csv'' True), st1))))"

subsection \<open>Example inputs\<close>

text \<open>
  A stand-in for the hashing functions (the hash of \<open>p\<close> is \<open>plain$p\<close>), a store with
  one user and two items seen by a logged-in client (\<open>st_shop\<close>) and by a client with
  no session (\<open>st_anon\<close>), and some submissions.
\<close>

definition sec0 :: security where
  "sec0 = \<lparr>generate_password_hash = (\<lambda>p. ''plain$'' @ p),
           check_password_hash = (\<lambda>h p. h = ''plain$'' @ p)\<rparr>"

definition alice :: user where
  "alice = \<lparr>user_id = 1, username = ''alice'', password_hash = ''plain$secret''\<rparr>"

definition apple :: item where
  "apple = \<lparr>item_id = 1, name = ''Apple'', quantity = 3, price = Finite (1 / 2)\<rparr>"

definition pear :: item where
  "pear = \<lparr>item_id = 2, name = ''Pear'', quantity = 7, price = Finite (5 / 4)\<rparr>"

definition st_shop :: state where
  "st_shop = \<lparr>users = [alice], items = [apple, pear], session_user_id = Some 1,
              flashes = [], db_log = []\<rparr>"

definition st_anon :: state where
  "st_anon = \<lparr>users = [alice], items = [apple, pear], session_user_id = None,
              flashes = [], db_log = []\<rparr>"

definition st_empty :: state where
  "st_empty = \<lparr>users = [], items = [], session_user_id = None, flashes = [], db_log = []\<rparr>"

definition widget_request :: "ItemForm_input request" where
  "widget_request = \<lparr>request_method = POST, csrf_valid = True,
     formdata = \<lparr>in_name = Some ''Widget'', in_quantity = Parsed 5, in_price = Parsed (Finite (5 / 2))\<rparr>\<rparr>"

definition zero_quantity_request :: "ItemForm_input request" where
  "zero_quantity_request = \<lparr>request_method = POST, csrf_valid = True,
     formdata = \<lparr>in_name = Some ''Widget'', in_quantity = Parsed 0, in_price = Parsed (Finite (5 / 2))\<rparr>\<rparr>"

definition huge_quantity_request :: "ItemForm_input request" where
  "huge_quantity_request = \<lparr>request_method = POST, csrf_valid = True,
     formdata = \<lparr>in_name = Some ''Widget'', in_quantity = Parsed 9223372036854775808,
                  in_price = Parsed (Finite (5 / 2))\<rparr>\<rparr>"

definition nan_price_request :: "ItemForm_input request" where
  "nan_price_request = \<lparr>request_method = POST, csrf_valid = True,
     formdata = \<lparr>in_name = Some ''Widget'', in_quantity = Parsed 5, in_price = Parsed NaN\<rparr>\<rparr>"

definition rename_request :: "ItemForm_input request" where
  "rename_request = \<lparr>request_method = POST, csrf_valid = True,
     formdata = \<lparr>in_name = Some ''Quince'', in_quantity = Absent, in_price = Parsed (Finite 2)\<rparr>\<rparr>"

definition short_password_form :: "RegisterForm request" where
  "short_password_form = \<lparr>request_method = POST, csrf_valid = True,
      formdata = \<lparr>reg_username = Some ''alice'', reg_password = Some ''abc'',
                   reg_confirm_password = Some ''abc''\<rparr>\<rparr>"

definition alice_form :: "RegisterForm request" where
  "alice_form = \<lparr>request_method = POST, csrf_valid = True,
      formdata = \<lparr>reg_username = Some ''alice'', reg_password = Some ''secret'',
                   reg_confirm_password = Some ''secret''\<rparr>\<rparr>"

definition alice_login :: "string \<Rightarrow> LoginForm request" where
  "alice_login pw = \<lparr>request_method = POST, csrf_valid = True,
      formdata = \<lparr>login_username = Some ''alice'', login_password = Some pw\<rparr>\<rparr>"

definition repr_stub :: "pyfloat \<Rightarrow> string" where
  "repr_stub x = ''1.0''"

section \<open>Properties\<close>

subsection \<open>Unfolding and frame lemmas\<close>

lemmas store_defs = flash_def log_query_def next_id_def User_query_get_def
  User_query_filter_by_first_def User_insert_def Item_query_all_def Item_query_get_or_404_def
  Item_insert_def Item_update_def Item_delete_def

lemmas form_defs = process_string_def process_number_def py_isspace_def strip_def
  DataRequired_str_def DataRequired_int_def DataRequired_float_def data_length_def
  Length_validator_def
  EqualTo_def validate_on_submit_def LoginForm_validate_def RegisterForm_validate_def
  ItemForm_process_def ItemForm_validate_def LoginForm_process_def RegisterForm_process_def

lemmas auth_defs = load_user_def current_user_def is_authenticated_def login_user_def
  logout_user_def unauthorized_def login_required_def

lemmas example_defs = sec0_def alice_def apple_def pear_def st_shop_def st_anon_def
  st_empty_def widget_request_def zero_quantity_request_def rename_request_def
  huge_quantity_request_def nan_price_request_def
  short_password_form_def alice_form_def alice_login_def

text \<open>Looking the current user up changes nothing but the query log.\<close>

lemma current_user_users: "users (snd (current_user st)) = users st"
  by (simp add: current_user_def load_user_def User_query_get_def log_query_def split: option.splits)

lemma current_user_items: "items (snd (current_user st)) = items st"
  by (simp add: current_user_def load_user_def User_query_get_def log_query_def split: option.splits)

lemma current_user_session: "session_user_id (snd (current_user st)) = session_user_id st"
  by (simp add: current_user_def load_user_def User_query_get_def log_query_def split: option.splits)

lemma current_user_flashes: "flashes (snd (current_user st)) = flashes st"
  by (simp add: current_user_def load_user_def User_query_get_def log_query_def split: option.splits)

lemma current_user_db_log:
  "db_log (snd (current_user st)) =
     db_log st @ (case session_user_id st of None \<Rightarrow> [] | Some uid \<Rightarrow> [Q_user_get uid])"
  by (simp add: current_user_def load_user_def User_query_get_def log_query_def split: option.splits)

lemma login_required_authenticated:
  "is_authenticated st \<Longrightarrow> login_required view st = view (snd (current_user st))"
  by (cases "current_user st") (auto simp: is_authenticated_def login_required_def)

lemma login_required_anonymous:
  "\<not> is_authenticated st \<Longrightarrow> login_required view st = unauthorized (snd (current_user st))"
  by (cases "current_user st") (auto simp: is_authenticated_def login_required_def)

lemma is_authenticated_frame:
  "users st' = users st \<Longrightarrow> session_user_id st' = session_user_id st \<Longrightarrow>
   is_authenticated st' = is_authenticated st"
  by (simp add: is_authenticated_def current_user_def load_user_def User_query_get_def
      split: option.splits)

text \<open>A new key is larger than every key in use.\<close>

lemma fold_max_ge: "(a::nat) \<le> fold max xs a"
proof (induction xs arbitrary: a)
  case Nil
  show ?case by simp
next
  case (Cons x xs)
  have "a \<le> max x a" by simp
  also have "max x a \<le> fold max xs (max x a)" by (rule Cons.IH)
  finally show ?case by simp
qed

lemma fold_max_upper: "x \<in> set xs \<Longrightarrow> (x::nat) \<le> fold max xs a"
proof (induction xs arbitrary: a)
  case Nil
  then show ?case by simp
next
  case (Cons y ys)
  show ?case
  proof (cases "x = y")
    case True
    have "x \<le> max y a" using True by simp
    also have "max y a \<le> fold max ys (max y a)" by (rule fold_max_ge)
    finally show ?thesis by simp
  next
    case False
    with Cons.prems have "x \<in> set ys" by simp
    then show ?thesis using Cons.IH by simp
  qed
qed

lemma next_id_fresh: "next_id ids \<notin> set ids"
proof
  assume "next_id ids \<in> set ids"
  then have "next_id ids \<le> fold max ids 0" by (rule fold_max_upper)
  then show False by (simp add: next_id_def)
qed

lemma st_shop_authenticated: "is_authenticated st_shop"
  by (simp add: example_defs auth_defs store_defs)

lemma st_anon_anonymous: "\<not> is_authenticated st_anon"
  by (simp add: example_defs auth_defs store_defs)

subsection \<open>Adding an item and listing\<close>

lemma widget_valid:
  "validate_on_submit widget_request
     (ItemForm_validate (ItemForm_process None (formdata widget_request)))"
  by (simp add: widget_request_def form_defs)

text \<open>
  Claim C1. A logged-in user submits the add form with name \<^verbatim>\<open>Widget\<close>, quantity 5 and
  price 2.50. The request succeeds (a redirect to the list); the \<^verbatim>\<open>Item\<close> table is the
  old table followed by one new row with exactly these three values, under a key no
  row had; and listing in the resulting state renders exactly that table, the new row
  included.
\<close>

theorem add_widget_then_list:
  assumes "is_authenticated st"
  shows "fst (add_item widget_request st) = Inr (redirect ''index'')
    \<and> items (snd (add_item widget_request st)) =
        items st @ [\<lparr>item_id = next_id (map item_id (items st)),
                     name = ''Widget'', quantity = 5, price = Finite (5 / 2)\<rparr>]
    \<and> next_id (map item_id (items st)) \<notin> set (map item_id (items st))
    \<and> fst (index (snd (add_item widget_request st))) =
        Inr (render_template ''index.html'' (ctx_items
          (items st @ [\<lparr>item_id = next_id (map item_id (items st)),
                     name = ''Widget'', quantity = 5, price = Finite (5 / 2)\<rparr>])))"
proof -
  let ?st1 = "snd (current_user st)"
  let ?new = "\<lparr>item_id = next_id (map item_id (items st)),
                     name = ''Widget'', quantity = 5, price = Finite (5 / 2)\<rparr>"
  have ins: "Item_insert (Some ''Widget'') (Some 5) (Some (Finite (5 / 2))) ?st1 =
      Inr (log_query Q_item_insert (?st1\<lparr>items := items st @ [?new]\<rparr>))"
    by (simp add: Item_insert_def sqlite_int_def current_user_items)
  have data: "form_name (ItemForm_process None (formdata widget_request)) = Some ''Widget''"
    "fst (form_quantity (ItemForm_process None (formdata widget_request))) = Some 5"
    "fst (form_price (ItemForm_process None (formdata widget_request))) = Some (Finite (5 / 2))"
    by (simp_all add: widget_request_def ItemForm_process_def process_string_def process_number_def)
  have run: "add_item widget_request st =
      (Inr (redirect ''index''),
       flash (emojize ''Item added successfully! :tada:'') ''success''
         (log_query Q_item_insert (?st1\<lparr>items := items st @ [?new]\<rparr>)))"
    using assms widget_valid
    by (simp add: add_item_def login_required_authenticated data ins)
  let ?st2 = "snd (add_item widget_request st)"
  have users2: "users ?st2 = users st" and sess2: "session_user_id ?st2 = session_user_id st"
    and items2: "items ?st2 = items st @ [?new]"
    by (simp_all add: run flash_def log_query_def current_user_users current_user_session)
  have auth2: "is_authenticated ?st2"
    using assms is_authenticated_frame [OF users2 sess2] by simp
  have "fst (index ?st2) = Inr (render_template ''index.html'' (ctx_items (items ?st2)))"
    using auth2
    by (simp add: index_def login_required_authenticated Item_query_all_def current_user_items)
  then show ?thesis
    using run items2 next_id_fresh [of "map item_id (items st)"] by simp
qed

theorem add_widget_then_list_witness:
  "is_authenticated st_shop
   \<and> fst (add_item widget_request st_shop) = Inr (redirect ''index'')
   \<and> items (snd (add_item widget_request st_shop)) =
       [apple, pear, \<lparr>item_id = 3, name = ''Widget'', quantity = 5, price = Finite (5 / 2)\<rparr>]
   \<and> fst (index (snd (add_item widget_request st_shop))) =
       Inr (render_template ''index.html'' (ctx_items
         [apple, pear, \<lparr>item_id = 3, name = ''Widget'', quantity = 5, price = Finite (5 / 2)\<rparr>]))"
  using st_shop_authenticated add_widget_then_list [OF st_shop_authenticated]
  by (simp add: st_shop_def apple_def pear_def next_id_def)

subsection \<open>The route guard\<close>

lemma guard_blocks:
  assumes "\<not> is_authenticated st"
  shows "login_required view st =
      (Inr (redirect ''login''),
       flash (plain ''Please log in to access this page.'') ''message'' (snd (current_user st)))"
  using assms by (simp add: login_required_anonymous unauthorized_def)

lemma anonymous_lookup_queries:
  "list_all (\<lambda>q. \<not> on_item_table q) (queries_since st (snd (current_user st)))"
  by (simp add: queries_since_def current_user_db_log split: option.splits)

text \<open>
  Claim C8. A request without an authenticated session to any of the six guarded routes
  (list, logout, add, edit, delete, export) is answered by the guard alone: a redirect
  to the login page and one flashed message. The answer is the same whatever the view
  behind the guard is (the first conjunct holds for every \<open>view\<close>), so the body of the
  handler is never run; the \<^verbatim>\<open>Item\<close> and \<^verbatim>\<open>User\<close> tables are unchanged, and no query
  the request sent touches the \<^verbatim>\<open>Item\<close> table.
\<close>

theorem guard_redirects_anonymous:
  assumes "\<not> is_authenticated st"
  shows "(let blocked = (Inr (redirect ''login''),
              flash (plain ''Please log in to access this page.'') ''message''
                (snd (current_user st)))
     in login_required view st = blocked
      \<and> index st = blocked \<and> logout st = blocked \<and> add_item req st = blocked
      \<and> edit_item iid req st = blocked \<and> delete_item iid st = blocked
      \<and> export_items repr_float st = blocked
      \<and> items (snd blocked) = items st \<and> users (snd blocked) = users st
      \<and> list_all (\<lambda>q. \<not> on_item_table q) (queries_since st (snd blocked)))"
proof -
  have q: "queries_since st (flash m c (snd (current_user st))) =
      queries_since st (snd (current_user st))" for m c
    by (simp add: queries_since_def flash_def)
  show ?thesis
    using assms anonymous_lookup_queries [of st]
    by (simp add: Let_def guard_blocks index_def logout_def add_item_def edit_item_def
        delete_item_def export_items_def q)
      (simp add: flash_def current_user_items current_user_users)
qed

theorem guard_redirects_anonymous_witness:
  "\<not> is_authenticated st_anon
   \<and> index st_anon = (Inr (redirect ''login''),
        st_anon\<lparr>flashes := [(plain ''Please log in to access this page.'', ''message'')]\<rparr>)
   \<and> delete_item 1 st_anon = index st_anon
   \<and> export_items repr_stub st_anon = index st_anon
   \<and> items (snd (delete_item 1 st_anon)) = [apple, pear]
   \<and> queries_since st_anon (snd (delete_item 1 st_anon)) = []"
  using st_anon_anonymous
    guard_redirects_anonymous [OF st_anon_anonymous, of index widget_request 1 repr_stub]
  by (simp add: Let_def st_anon_def current_user_def flash_def queries_since_def)

subsection \<open>The \<^verbatim>\<open>User\<close> table\<close>

lemma login_required_users:
  assumes "\<And>s. users (snd (view s)) = users s"
  shows "users (snd (login_required view st)) = users st"
proof (cases "is_authenticated st")
  case True
  then show ?thesis
    by (simp add: login_required_authenticated assms current_user_users)
next
  case False
  then show ?thesis
    by (simp add: login_required_anonymous unauthorized_def flash_def current_user_users)
qed

lemma index_users: "users (snd (index st)) = users st"
  unfolding index_def
  by (rule login_required_users) (simp add: Item_query_all_def log_query_def)

lemma logout_users: "users (snd (logout st)) = users st"
  unfolding logout_def
  by (rule login_required_users) (simp add: logout_user_def flash_def)

lemma add_item_users: "users (snd (add_item req st)) = users st"
  unfolding add_item_def
  by (rule login_required_users)
    (simp add: Let_def Item_insert_def flash_def log_query_def split: option.splits)

lemma edit_item_users: "users (snd (edit_item iid req st)) = users st"
  unfolding edit_item_def
  by (rule login_required_users)
    (simp add: Let_def Item_query_get_or_404_def Item_update_def flash_def log_query_def
      split: option.splits)

lemma delete_item_users: "users (snd (delete_item iid st)) = users st"
  unfolding delete_item_def
  by (rule login_required_users)
    (simp add: Item_query_get_or_404_def Item_delete_def flash_def log_query_def
      split: option.splits)

lemma export_items_users: "users (snd (export_items repr_float st)) = users st"
  unfolding export_items_def
  by (rule login_required_users)
    (simp add: Item_query_all_def log_query_def split: sum.splits)

lemma login_users: "users (snd (login sec req st)) = users st"
proof (cases "current_user st")
  case (Pair cu st1)
  then have u1: "users st1 = users st"
    using current_user_users [of st] by simp
  show ?thesis
    using Pair u1
    by (simp add: login_def Let_def User_query_filter_by_first_def flash_def log_query_def
        login_user_def split: option.splits)
qed

lemma register_users:
  "users (snd (register sec req st)) = users st
   \<or> (\<exists>u. users (snd (register sec req st)) = users st @ [u])"
proof (cases "current_user st")
  case (Pair cu st1)
  then have u1: "users st1 = users st"
    using current_user_users [of st] by simp
  show ?thesis
    using Pair u1
    by (simp add: register_def Let_def User_query_filter_by_first_def User_insert_def flash_def
        log_query_def split: option.splits)
qed

text \<open>
  Claim C9. Login, logout, list, add, edit, delete and export leave the \<^verbatim>\<open>User\<close> table
  exactly as it was (the same rows, with the same ids, usernames and password hashes,
  in the same order), for every request and every state. Register leaves it as it was
  or appends one row: it never changes or removes a row.
\<close>

theorem user_table_only_grows_at_register:
  "users (snd (login sec lreq st)) = users st
   \<and> users (snd (logout st)) = users st
   \<and> users (snd (index st)) = users st
   \<and> users (snd (add_item ireq st)) = users st
   \<and> users (snd (edit_item iid ireq st)) = users st
   \<and> users (snd (delete_item iid st)) = users st
   \<and> users (snd (export_items repr_float st)) = users st
   \<and> (users (snd (register sec rreq st)) = users st
        \<or> (\<exists>u. users (snd (register sec rreq st)) = users st @ [u]))"
  using register_users [of sec rreq st]
  by (simp add: login_users logout_users index_users add_item_users edit_item_users
      delete_item_users export_items_users)

theorem user_table_only_grows_at_register_witness:
  "users (snd (login sec0 (alice_login ''secret'') st_anon)) = [alice]
   \<and> users (snd (logout st_shop)) = [alice]
   \<and> users (snd (add_item widget_request st_shop)) = [alice]
   \<and> users (snd (delete_item 1 st_shop)) = [alice]
   \<and> users (snd (register sec0 alice_form st_empty)) = [alice]"
proof -
  have "users (snd (register sec0 alice_form st_empty)) = [alice]"
    by (simp add: example_defs register_def auth_defs store_defs form_defs)
  then show ?thesis
    using user_table_only_grows_at_register
      [of sec0 "alice_login ''secret''" st_anon widget_request 1 repr_stub alice_form]
      user_table_only_grows_at_register
      [of sec0 "alice_login ''secret''" st_shop widget_request 1 repr_stub alice_form]
    by (simp add: st_anon_def st_shop_def)
qed

subsection \<open>Bounds of the registration form\<close>

lemma RegisterForm_validate_bounds:
  assumes "RegisterForm_validate (RegisterForm_process f)"
  shows "4 \<le> data_length (reg_username f)" "data_length (reg_username f) \<le> 150"
    "4 \<le> data_length (reg_password f)" "reg_confirm_password f = reg_password f"
  using assms
  by (auto simp: RegisterForm_validate_def RegisterForm_process_def process_string_def
      Length_validator_def EqualTo_def data_length_def Let_def split: option.splits)

text \<open>
  Claim C10. A registration request whose username has fewer than 4 or more than 150
  characters, whose password has fewer than 4 characters, or whose confirmation differs
  from the password (an absent field has length 0) creates no user: the \<^verbatim>\<open>User\<close> table
  is unchanged, nothing is flashed, and the answer is the registration form again (or,
  for a client that is already logged in, the redirect to the list). The bounds are
  checked by the \<^verbatim>\<open>register\<close> route itself, for every request it receives.
\<close>

theorem register_rejects_invalid_form:
  assumes "data_length (reg_username (formdata req)) < 4
         \<or> 150 < data_length (reg_username (formdata req))
         \<or> data_length (reg_password (formdata req)) < 4
         \<or> reg_confirm_password (formdata req) \<noteq> reg_password (formdata req)"
  shows "users (snd (register sec req st)) = users st
       \<and> fst (register sec req st) =
           (if is_authenticated st then Inr (redirect ''index'')
            else Inr (render_template ''register.html'' ctx_form))
       \<and> flashes (snd (register sec req st)) = flashes st"
proof -
  have invalid:
    "\<not> validate_on_submit req (RegisterForm_validate (RegisterForm_process (formdata req)))"
    using assms RegisterForm_validate_bounds [of "formdata req"]
    by (auto simp: validate_on_submit_def)
  show ?thesis
  proof (cases "current_user st")
    case (Pair cu st1)
    then have "users st1 = users st" "flashes st1 = flashes st"
      using current_user_users [of st] current_user_flashes [of st] by simp_all
    then show ?thesis
      using Pair invalid
      by (simp add: register_def Let_def is_authenticated_def split: option.splits)
  qed
qed

theorem register_rejects_invalid_form_witness:
  "data_length (reg_password (formdata short_password_form)) < 4
   \<and> users (snd (register sec0 short_password_form st_empty)) = []
   \<and> fst (register sec0 short_password_form st_empty) =
        Inr (render_template ''register.html'' ctx_form)"
proof -
  have h: "data_length (reg_password (formdata short_password_form)) < 4"
    by (simp add: short_password_form_def data_length_def)
  have a: "\<not> is_authenticated st_empty"
    by (simp add: st_empty_def is_authenticated_def current_user_def)
  show ?thesis
    using h a register_rejects_invalid_form [of short_password_form sec0 st_empty]
    by (simp add: st_empty_def)
qed

subsection \<open>Looking an item up by id: edit and delete\<close>

lemma find_None_iff_id: "(find (\<lambda>i. item_id i = iid) xs = None) = (iid \<notin> set (map item_id xs))"
  by (induction xs) auto

lemma find_Some_id: "find (\<lambda>i. item_id i = iid) xs = Some it \<Longrightarrow> item_id it = iid \<and> it \<in> set xs"
  by (induction xs) (auto split: if_splits)

lemma filter_absent_id: "iid \<notin> set (map item_id xs) \<Longrightarrow> filter (\<lambda>i. item_id i \<noteq> iid) xs = xs"
  by (induction xs) auto

lemma length_filter_distinct_id:
  "distinct (map item_id xs) \<Longrightarrow> iid \<in> set (map item_id xs) \<Longrightarrow>
   Suc (length (filter (\<lambda>i. item_id i \<noteq> iid) xs)) = length xs"
proof (induction xs)
  case Nil
  then show ?case by simp
next
  case (Cons x xs)
  show ?case
  proof (cases "item_id x = iid")
    case True
    with Cons.prems have "iid \<notin> set (map item_id xs)" by auto
    then show ?thesis using True by (simp add: filter_absent_id)
  next
    case False
    with Cons.prems have "distinct (map item_id xs)" "iid \<in> set (map item_id xs)" by auto
    then show ?thesis using False Cons.IH by simp
  qed
qed

lemma edit_item_missing:
  assumes "is_authenticated st" "sqlite_int (int iid)" "iid \<notin> set (map item_id (items st))"
  shows "edit_item iid req st = (Inl NotFound, log_query (Q_item_get iid) (snd (current_user st)))"
proof -
  have "find (\<lambda>i. item_id i = iid) (items (snd (current_user st))) = None"
    using assms(3) by (simp add: find_None_iff_id current_user_items del: set_map)
  then show ?thesis
    using assms(1,2)
    by (simp add: edit_item_def login_required_authenticated Item_query_get_or_404_def)
qed

lemma delete_item_missing:
  assumes "is_authenticated st" "sqlite_int (int iid)" "iid \<notin> set (map item_id (items st))"
  shows "delete_item iid st = (Inl NotFound, log_query (Q_item_get iid) (snd (current_user st)))"
proof -
  have "find (\<lambda>i. item_id i = iid) (items (snd (current_user st))) = None"
    using assms(3) by (simp add: find_None_iff_id current_user_items del: set_map)
  then show ?thesis
    using assms(1,2)
    by (simp add: delete_item_def login_required_authenticated Item_query_get_or_404_def)
qed

lemma delete_item_present:
  assumes "is_authenticated st" "sqlite_int (int iid)" "iid \<in> set (map item_id (items st))"
  shows "fst (delete_item iid st) = Inr (redirect ''index'')"
    "items (snd (delete_item iid st)) = filter (\<lambda>i. item_id i \<noteq> iid) (items st)"
proof -
  obtain it where f: "find (\<lambda>i. item_id i = iid) (items (snd (current_user st))) = Some it"
    using assms(3) find_None_iff_id [of iid "items st"] by (auto simp: current_user_items)
  then have id: "item_id it = iid" using find_Some_id by blast
  show "fst (delete_item iid st) = Inr (redirect ''index'')"
    using assms(1,2) f
    by (simp add: delete_item_def login_required_authenticated Item_query_get_or_404_def)
  show "items (snd (delete_item iid st)) = filter (\<lambda>i. item_id i \<noteq> iid) (items st)"
    using assms(1,2) f id
    by (simp add: delete_item_def login_required_authenticated Item_query_get_or_404_def
        Item_delete_def flash_def log_query_def current_user_items)
qed

lemma item_lookup_overflow:
  assumes "is_authenticated st" "\<not> sqlite_int (int iid)"
  shows "edit_item iid req st = (Inl OverflowError, snd (current_user st))"
    "delete_item iid st = (Inl OverflowError, snd (current_user st))"
  using assms
  by (simp_all add: edit_item_def delete_item_def login_required_authenticated
      Item_query_get_or_404_def)

text \<open>
  Claim C5 fails on the code for the ids the store cannot take. For a logged-in client
  and an id within the signed 64-bit range the claim holds: when no item has the id,
  edit (whatever the request) and delete fail with \<^verbatim>\<open>NotFound\<close> (HTTP 404) and the
  \<^verbatim>\<open>Item\<close> table is unchanged; when an item has it, delete succeeds and the table
  afterwards is the old one without the rows of that id, the others kept in order (one
  row fewer, ids being distinct). An id of 2^63 or more is the id of no item either, but
  there the lookup raises \<^verbatim>\<open>OverflowError\<close>: the answer is an uncaught exception, not
  \<^verbatim>\<open>NotFound\<close>. The table is unchanged all the same.
\<close>

theorem edit_delete_by_id:
  assumes "is_authenticated st"
  shows "(sqlite_int (int iid) \<and> iid \<notin> set (map item_id (items st)) \<longrightarrow>
            fst (edit_item iid req st) = Inl NotFound
          \<and> items (snd (edit_item iid req st)) = items st
          \<and> fst (delete_item iid st) = Inl NotFound
          \<and> items (snd (delete_item iid st)) = items st)
       \<and> (sqlite_int (int iid) \<and> iid \<in> set (map item_id (items st)) \<longrightarrow>
            fst (delete_item iid st) = Inr (redirect ''index'')
          \<and> items (snd (delete_item iid st)) = filter (\<lambda>i. item_id i \<noteq> iid) (items st)
          \<and> (distinct (map item_id (items st)) \<longrightarrow>
                Suc (length (items (snd (delete_item iid st)))) = length (items st)))
       \<and> (\<not> sqlite_int (int iid) \<longrightarrow>
            fst (edit_item iid req st) = Inl OverflowError
          \<and> items (snd (edit_item iid req st)) = items st
          \<and> fst (delete_item iid st) = Inl OverflowError
          \<and> items (snd (delete_item iid st)) = items st)"
proof (intro conjI impI; (elim conjE)?)
  assume r: "sqlite_int (int iid)" and m: "iid \<notin> set (map item_id (items st))"
  show "fst (edit_item iid req st) = Inl NotFound"
    and "items (snd (edit_item iid req st)) = items st"
    by (simp_all add: edit_item_missing [OF assms r m] log_query_def current_user_items)
  show "fst (delete_item iid st) = Inl NotFound"
    and "items (snd (delete_item iid st)) = items st"
    by (simp_all add: delete_item_missing [OF assms r m] log_query_def current_user_items)
next
  assume r: "sqlite_int (int iid)" and p: "iid \<in> set (map item_id (items st))"
  show "fst (delete_item iid st) = Inr (redirect ''index'')"
    by (rule delete_item_present(1) [OF assms r p])
  show "items (snd (delete_item iid st)) = filter (\<lambda>i. item_id i \<noteq> iid) (items st)"
    by (rule delete_item_present(2) [OF assms r p])
  assume d: "distinct (map item_id (items st))"
  show "Suc (length (items (snd (delete_item iid st)))) = length (items st)"
    by (simp only: delete_item_present(2) [OF assms r p] length_filter_distinct_id [OF d p])
next
  assume o: "\<not> sqlite_int (int iid)"
  show "fst (edit_item iid req st) = Inl OverflowError"
    and "items (snd (edit_item iid req st)) = items st"
    and "fst (delete_item iid st) = Inl OverflowError"
    and "items (snd (delete_item iid st)) = items st"
    by (simp_all add: item_lookup_overflow [OF assms o] current_user_items)
qed

theorem edit_delete_by_id_witness:
  "is_authenticated st_shop
   \<and> fst (edit_item 7 widget_request st_shop) = Inl NotFound
   \<and> items (snd (edit_item 7 widget_request st_shop)) = [apple, pear]
   \<and> fst (delete_item 7 st_shop) = Inl NotFound
   \<and> items (snd (delete_item 7 st_shop)) = [apple, pear]
   \<and> fst (delete_item 1 st_shop) = Inr (redirect ''index'')
   \<and> items (snd (delete_item 1 st_shop)) = [pear]
   \<and> 9223372036854775808 \<notin> set (map item_id (items st_shop))
   \<and> fst (edit_item 9223372036854775808 widget_request st_shop) = Inl OverflowError
   \<and> fst (delete_item 9223372036854775808 st_shop) = Inl OverflowError
   \<and> items (snd (delete_item 9223372036854775808 st_shop)) = [apple, pear]"
  using st_shop_authenticated
    edit_delete_by_id [OF st_shop_authenticated, of 7 widget_request]
    edit_delete_by_id [OF st_shop_authenticated, of 1 widget_request]
    edit_delete_by_id [OF st_shop_authenticated, of 9223372036854775808 widget_request]
  by (simp add: st_shop_def apple_def pear_def sqlite_int_def)

subsection \<open>Editing\<close>

text \<open>
  The data of an edit form that validates: a submitted value, or the item's own value
  for a field the submission leaves out.
\<close>

lemma ItemForm_process_edited:
  assumes "ItemForm_validate (ItemForm_process (Some it) inp)"
  shows "form_name (ItemForm_process (Some it) inp) =
           Some (case in_name inp of Some v \<Rightarrow> v | None \<Rightarrow> name it)"
    "fst (form_quantity (ItemForm_process (Some it) inp)) =
           Some (case in_quantity inp of Parsed v \<Rightarrow> v | _ \<Rightarrow> quantity it)"
    "fst (form_price (ItemForm_process (Some it) inp)) =
           Some (case in_price inp of Parsed v \<Rightarrow> v | _ \<Rightarrow> price it)"
  using assms
  by (auto simp: ItemForm_validate_def ItemForm_process_def process_string_def
      process_number_def split: option.splits formvalue.splits)

lemma map_update_ids:
  "map item_id (map (\<lambda>i. if item_id i = iid then i\<lparr>name := n, quantity := q, price := p\<rparr> else i) xs)
   = map item_id xs"
  by (induction xs) auto

lemma map_update_others:
  "filter (\<lambda>i. item_id i \<noteq> iid)
     (map (\<lambda>i. if item_id i = iid then i\<lparr>name := n, quantity := q, price := p\<rparr> else i) xs)
   = filter (\<lambda>i. item_id i \<noteq> iid) xs"
  by (induction xs) auto

lemma map_update_same:
  assumes "find (\<lambda>i. item_id i = iid) xs = Some it" "distinct (map item_id xs)"
  shows "map (\<lambda>i. if item_id i = iid
                   then i\<lparr>name := name it, quantity := quantity it, price := price it\<rparr> else i) xs
         = xs"
proof -
  have "i = it" if "i \<in> set xs" "item_id i = iid" for i
  proof -
    from assms(1) have "it \<in> set xs" "item_id it = iid"
      using find_Some_id by blast+
    with that assms(2) show ?thesis
      by (metis distinct_map inj_onD)
  qed
  then show ?thesis
    by (intro map_idI) auto
qed

text \<open>
  Claim C6. A logged-in client edits an existing item \<open>it\<close> (the row found under the id
  \<open>iid\<close>, a key of the store) with a submission that validates. The new name, quantity
  and price are the submitted values, a field the submission leaves out keeping its old
  value. Whatever they are, the ids of all rows, every row of another id and the
  \<^verbatim>\<open>User\<close> table are unchanged. When the store takes the values, the request succeeds
  and the table is the old one, row for row, with the three new values in the row of id
  \<open>iid\<close>. When it does not (a new quantity outside the signed 64-bit range, a new price
  that is NaN), the commit raises and the table is unchanged altogether.
\<close>

theorem edit_changes_only_submitted_fields:
  assumes "is_authenticated st"
    and "find (\<lambda>i. item_id i = iid) (items st) = Some it"
    and "sqlite_int (int iid)"
    and "distinct (map item_id (items st))"
    and "validate_on_submit req (ItemForm_validate (ItemForm_process (Some it) (formdata req)))"
  shows "(let n' = (case in_name (formdata req) of Some v \<Rightarrow> v | None \<Rightarrow> name it);
              q' = (case in_quantity (formdata req) of Parsed v \<Rightarrow> v | _ \<Rightarrow> quantity it);
              p' = (case in_price (formdata req) of Parsed v \<Rightarrow> v | _ \<Rightarrow> price it)
          in if q' \<noteq> quantity it \<and> \<not> sqlite_int q'
             then fst (edit_item iid req st) = Inl OverflowError
                \<and> items (snd (edit_item iid req st)) = items st
             else if p' \<noteq> price it \<and> p' = NaN
             then fst (edit_item iid req st) = Inl IntegrityError
                \<and> items (snd (edit_item iid req st)) = items st
             else fst (edit_item iid req st) = Inr (redirect ''index'')
                \<and> items (snd (edit_item iid req st)) =
                    map (\<lambda>i. if item_id i = iid
                              then i\<lparr>name := n', quantity := q', price := p'\<rparr> else i)
                      (items st))
    \<and> map item_id (items (snd (edit_item iid req st))) = map item_id (items st)
    \<and> filter (\<lambda>i. item_id i \<noteq> iid) (items (snd (edit_item iid req st))) =
        filter (\<lambda>i. item_id i \<noteq> iid) (items st)
    \<and> users (snd (edit_item iid req st)) = users st"
proof -
  let ?st1 = "snd (current_user st)"
  let ?st2 = "log_query (Q_item_get iid) ?st1"
  let ?form = "ItemForm_process (Some it) (formdata req)"
  let ?n = "case in_name (formdata req) of Some v \<Rightarrow> v | None \<Rightarrow> name it"
  let ?q = "case in_quantity (formdata req) of Parsed v \<Rightarrow> v | _ \<Rightarrow> quantity it"
  let ?p = "case in_price (formdata req) of Parsed v \<Rightarrow> v | _ \<Rightarrow> price it"
  let ?upd = "\<lambda>i. if item_id i = iid then i\<lparr>name := ?n, quantity := ?q, price := ?p\<rparr> else i"
  have id: "item_id it = iid" using assms(2) find_Some_id by blast
  have get: "Item_query_get_or_404 iid ?st1 = (Inr it, ?st2)"
    using assms(2,3) by (simp add: Item_query_get_or_404_def current_user_items)
  have valid: "ItemForm_validate ?form"
    using assms(5) by (simp add: validate_on_submit_def)
  note data = ItemForm_process_edited [OF valid]
  have run: "edit_item iid req st =
      (case Item_update it (Some ?n) (Some ?q) (Some ?p) ?st2 of
         Inl e \<Rightarrow> (Inl e, ?st2)
       | Inr st3 \<Rightarrow>
           (Inr (redirect ''index''),
            flash (emojize ''Item updated successfully! :pencil2:'') ''success'' st3))"
    using assms(1) assms(5)
    by (simp add: edit_item_def login_required_authenticated get Let_def data)
  have items2: "items ?st2 = items st" and users2: "users ?st2 = users st"
    by (simp_all add: log_query_def current_user_items current_user_users)
  have frame: "map item_id (map ?upd (items st)) = map item_id (items st)"
    "filter (\<lambda>i. item_id i \<noteq> iid) (map ?upd (items st)) = filter (\<lambda>i. item_id i \<noteq> iid) (items st)"
    by (rule map_update_ids, rule map_update_others)
  consider (same) "?n = name it \<and> ?q = quantity it \<and> ?p = price it"
    | (overflow) "?q \<noteq> quantity it \<and> \<not> sqlite_int ?q"
    | (notnull) "\<not> (?q \<noteq> quantity it \<and> \<not> sqlite_int ?q) \<and> ?p \<noteq> price it \<and> ?p = NaN"
    | (stored) "\<not> (?n = name it \<and> ?q = quantity it \<and> ?p = price it)
        \<and> \<not> (?q \<noteq> quantity it \<and> \<not> sqlite_int ?q) \<and> \<not> (?p \<noteq> price it \<and> ?p = NaN)"
    by blast
  then show ?thesis
  proof cases
    case same
    then have upd: "Item_update it (Some ?n) (Some ?q) (Some ?p) ?st2 = Inr ?st2"
      by (simp add: Item_update_def)
    from same have e: "?n = name it" "?q = quantity it" "?p = price it"
      by blast+
    note m = map_update_same [OF assms(2,4)]
    show ?thesis
      using run upd items2 users2 m
      by (simp add: e Let_def flash_def)
  next
    case overflow
    then have upd: "Item_update it (Some ?n) (Some ?q) (Some ?p) ?st2 = Inl OverflowError"
      by (simp add: Item_update_def)
    show ?thesis
      using overflow run upd items2 users2
      by (auto simp: Let_def)
  next
    case notnull
    then have upd: "Item_update it (Some ?n) (Some ?q) (Some ?p) ?st2 = Inl IntegrityError"
      by (auto simp: Item_update_def)
    show ?thesis
      using notnull run upd items2 users2
      by (auto simp: Let_def)
  next
    case stored
    then have upd: "Item_update it (Some ?n) (Some ?q) (Some ?p) ?st2 =
        Inr (log_query (Q_item_update iid) (?st2\<lparr>items := map ?upd (items st)\<rparr>))"
      by (auto simp: Item_update_def id items2)
    show ?thesis
      using stored run upd users2 frame
      by (auto simp: Let_def flash_def log_query_def)
  qed
qed

theorem edit_changes_only_submitted_fields_witness:
  "is_authenticated st_shop
   \<and> find (\<lambda>i. item_id i = 2) (items st_shop) = Some pear
   \<and> validate_on_submit rename_request
       (ItemForm_validate (ItemForm_process (Some pear) (formdata rename_request)))
   \<and> fst (edit_item 2 rename_request st_shop) = Inr (redirect ''index'')
   \<and> items (snd (edit_item 2 rename_request st_shop)) =
       [apple, \<lparr>item_id = 2, name = ''Quince'', quantity = 7, price = Finite 2\<rparr>]
   \<and> users (snd (edit_item 2 rename_request st_shop)) = [alice]
   \<and> fst (edit_item 2 huge_quantity_request st_shop) = Inl OverflowError
   \<and> items (snd (edit_item 2 huge_quantity_request st_shop)) = [apple, pear]"
proof -
  have f: "find (\<lambda>i. item_id i = 2) (items st_shop) = Some pear"
    by (simp add: st_shop_def apple_def pear_def)
  have r: "sqlite_int (int 2)"
    by (simp add: sqlite_int_def)
  have d: "distinct (map item_id (items st_shop))"
    by (simp add: st_shop_def apple_def pear_def)
  have v: "validate_on_submit rename_request
       (ItemForm_validate (ItemForm_process (Some pear) (formdata rename_request)))"
    by (simp add: rename_request_def pear_def validate_on_submit_def ItemForm_validate_def
        ItemForm_process_def process_string_def process_number_def DataRequired_str_def
        DataRequired_int_def DataRequired_float_def strip_def py_isspace_def)
  have v': "validate_on_submit huge_quantity_request
       (ItemForm_validate (ItemForm_process (Some pear) (formdata huge_quantity_request)))"
    by (simp add: huge_quantity_request_def pear_def validate_on_submit_def ItemForm_validate_def
        ItemForm_process_def process_string_def process_number_def DataRequired_str_def
        DataRequired_int_def DataRequired_float_def strip_def py_isspace_def)
  show ?thesis
    using st_shop_authenticated f v
      edit_changes_only_submitted_fields [OF st_shop_authenticated f r d v]
      edit_changes_only_submitted_fields [OF st_shop_authenticated f r d v']
    by (simp add: st_shop_def apple_def pear_def rename_request_def huge_quantity_request_def
        sqlite_int_def Let_def)
qed

subsection \<open>What the add form accepts\<close>

lemma strip_Nil: "strip [] = []"
  by (simp add: strip_def)

lemma add_form_valid_iff:
  "ItemForm_validate (ItemForm_process None inp) =
     (case (in_name inp, in_quantity inp, in_price inp) of
        (Some n, Parsed q, Parsed p) \<Rightarrow> strip n \<noteq> [] \<and> q \<noteq> 0 \<and> p \<noteq> Finite 0
      | _ \<Rightarrow> False)"
  by (auto simp: ItemForm_validate_def ItemForm_process_def process_string_def
      process_number_def DataRequired_str_def DataRequired_int_def DataRequired_float_def
      strip_Nil split: option.splits formvalue.splits)

text \<open>
  Claim C7, as the code has it. For a logged-in client, the add form lets a request
  through exactly when it is a submission (a \<^verbatim>\<open>POST\<close> with a valid CSRF token) whose
  name is present and not blank, whose quantity parsed as an integer other than 0 and
  whose price parsed as a float other than 0; any other request gets the form again
  and the \<^verbatim>\<open>Item\<close> table is unchanged. A request the form lets through creates the item
  (one new row with the three values, and a redirect to the list) when the store takes
  the values, that is, when the quantity is within the signed 64-bit range and the
  price is not NaN; otherwise the commit raises and no row is created.
\<close>

theorem add_creates_item_exactly_when:
  assumes "is_authenticated st"
  shows "(case (in_name (formdata req), in_quantity (formdata req), in_price (formdata req)) of
       (Some n, Parsed q, Parsed p) \<Rightarrow>
         if request_method req = POST \<and> csrf_valid req
            \<and> strip n \<noteq> [] \<and> q \<noteq> 0 \<and> p \<noteq> Finite 0
         then (if \<not> sqlite_int q
               then fst (add_item req st) = Inl OverflowError
                  \<and> items (snd (add_item req st)) = items st
               else if p = NaN
               then fst (add_item req st) = Inl IntegrityError
                  \<and> items (snd (add_item req st)) = items st
               else fst (add_item req st) = Inr (redirect ''index'')
                  \<and> items (snd (add_item req st)) =
                      items st @ [\<lparr>item_id = next_id (map item_id (items st)),
                                   name = n, quantity = q, price = p\<rparr>])
         else fst (add_item req st) = Inr (render_template ''item_form.html'' (ctx_form_action ''Add''))
            \<and> items (snd (add_item req st)) = items st
     | _ \<Rightarrow> fst (add_item req st) = Inr (render_template ''item_form.html'' (ctx_form_action ''Add''))
            \<and> items (snd (add_item req st)) = items st)"
proof -
  let ?valid = "validate_on_submit req (ItemForm_validate (ItemForm_process None (formdata req)))"
  let ?st1 = "snd (current_user st)"
  have valid_iff: "?valid =
      (request_method req = POST \<and> csrf_valid req \<and>
       (case (in_name (formdata req), in_quantity (formdata req), in_price (formdata req)) of
          (Some n, Parsed q, Parsed p) \<Rightarrow> strip n \<noteq> [] \<and> q \<noteq> 0 \<and> p \<noteq> Finite 0
        | _ \<Rightarrow> False))"
    by (simp only: validate_on_submit_def add_form_valid_iff)
  show ?thesis
  proof (cases ?valid)
    case True
    then obtain n q p where inp: "in_name (formdata req) = Some n"
        "in_quantity (formdata req) = Parsed q" "in_price (formdata req) = Parsed p"
      and ok: "request_method req = POST" "csrf_valid req" "strip n \<noteq> []" "q \<noteq> 0"
        "p \<noteq> Finite 0"
      unfolding valid_iff by (auto split: option.splits formvalue.splits)
    have data: "form_name (ItemForm_process None (formdata req)) = Some n"
      "fst (form_quantity (ItemForm_process None (formdata req))) = Some q"
      "fst (form_price (ItemForm_process None (formdata req))) = Some p"
      by (simp_all add: inp ItemForm_process_def process_string_def process_number_def)
    have run: "add_item req st =
        (case Item_insert (Some n) (Some q) (Some p) ?st1 of
           Inl e \<Rightarrow> (Inl e, ?st1)
         | Inr st2 \<Rightarrow>
             (Inr (redirect ''index''),
              flash (emojize ''Item added successfully! :tada:'') ''success'' st2))"
      using assms True
      by (simp add: add_item_def login_required_authenticated data)
    show ?thesis
      by (simp add: inp ok run Item_insert_def flash_def log_query_def current_user_items)
  next
    case False
    then have "add_item req st =
        (Inr (render_template ''item_form.html'' (ctx_form_action ''Add'')), ?st1)"
      using assms by (simp add: add_item_def login_required_authenticated)
    then have rej: "fst (add_item req st) = Inr (render_template ''item_form.html'' (ctx_form_action ''Add''))
        \<and> items (snd (add_item req st)) = items st"
      by (simp add: current_user_items)
    show ?thesis
      using False rej unfolding valid_iff
      by (auto split: option.splits formvalue.splits)
  qed
qed

theorem add_creates_item_exactly_when_witness:
  "is_authenticated st_shop
   \<and> fst (add_item widget_request st_shop) = Inr (redirect ''index'')
   \<and> items (snd (add_item widget_request st_shop)) =
       [apple, pear, \<lparr>item_id = 3, name = ''Widget'', quantity = 5, price = Finite (5 / 2)\<rparr>]
   \<and> items (snd (add_item zero_quantity_request st_shop)) = [apple, pear]
   \<and> fst (add_item huge_quantity_request st_shop) = Inl OverflowError
   \<and> items (snd (add_item huge_quantity_request st_shop)) = [apple, pear]
   \<and> fst (add_item nan_price_request st_shop) = Inl IntegrityError
   \<and> items (snd (add_item nan_price_request st_shop)) = [apple, pear]"
  using st_shop_authenticated
    add_creates_item_exactly_when [OF st_shop_authenticated, of widget_request]
    add_creates_item_exactly_when [OF st_shop_authenticated, of zero_quantity_request]
    add_creates_item_exactly_when [OF st_shop_authenticated, of huge_quantity_request]
    add_creates_item_exactly_when [OF st_shop_authenticated, of nan_price_request]
  by (simp add: widget_request_def zero_quantity_request_def huge_quantity_request_def
      nan_price_request_def st_shop_def apple_def pear_def next_id_def strip_def py_isspace_def
      sqlite_int_def)

text \<open>
  Claim C7 as stated fails: the submission name \<^verbatim>\<open>Widget\<close>, quantity 0, price 2.50 has
  all three fields present, an integer quantity and a numeric price, and is rejected,
  because \<^verbatim>\<open>DataRequired\<close> takes the quantity 0 for missing data.
\<close>

theorem add_rejects_zero_quantity:
  "is_authenticated st_shop
   \<and> in_name (formdata zero_quantity_request) = Some ''Widget''
   \<and> in_quantity (formdata zero_quantity_request) = Parsed 0
   \<and> in_price (formdata zero_quantity_request) = Parsed (Finite (5 / 2))
   \<and> fst (add_item zero_quantity_request st_shop) =
        Inr (render_template ''item_form.html'' (ctx_form_action ''Add''))
   \<and> items (snd (add_item zero_quantity_request st_shop)) = items st_shop"
  using st_shop_authenticated
  by (simp add: zero_quantity_request_def add_item_def login_required_authenticated Let_def
      validate_on_submit_def ItemForm_validate_def ItemForm_process_def process_string_def
      process_number_def DataRequired_int_def current_user_items)

subsection \<open>Registering a username that is taken\<close>

text \<open>
  Claim C2, as the code has it. When a user with username \<open>u\<close> exists, no register
  request for \<open>u\<close> changes the \<^verbatim>\<open>User\<close> table. The request fails with the duplicate
  username error (the flashed message \<^verbatim>\<open>Username already exists.\<close> and a redirect back
  to the registration page) exactly when it comes from a client that is not logged in
  and passes the form's validation; otherwise the route never looks the username up,
  and nothing is flashed.
\<close>

theorem register_existing_username:
  assumes "find (\<lambda>x. username x = u) (users st) \<noteq> None"
    and "reg_username (formdata req) = Some u"
  shows "users (snd (register sec req st)) = users st
    \<and> (if \<not> is_authenticated st
          \<and> validate_on_submit req (RegisterForm_validate (RegisterForm_process (formdata req)))
        then fst (register sec req st) = Inr (redirect ''register'')
           \<and> flashes (snd (register sec req st)) =
               flashes st @ [(emojize ''Username already exists. :no_entry_sign:'', ''danger'')]
        else fst (register sec req st) \<noteq> Inr (redirect ''register'')
           \<and> flashes (snd (register sec req st)) = flashes st)"
proof (cases "current_user st")
  case (Pair cu st1)
  then have fr: "users st1 = users st" "flashes st1 = flashes st"
    using current_user_users [of st] current_user_flashes [of st] by simp_all
  have name: "reg_username (RegisterForm_process (formdata req)) = Some u"
    using assms(2) by (simp add: RegisterForm_process_def process_string_def)
  obtain x where found: "find (\<lambda>x. Some (username x) = Some u) (users st1) = Some x"
    using assms(1) fr by auto
  show ?thesis
    using Pair fr name found
    by (simp add: register_def Let_def is_authenticated_def User_query_filter_by_first_def
        flash_def log_query_def split: option.splits)
qed

theorem register_existing_username_witness:
  "find (\<lambda>x. username x = ''alice'') (users st_anon) \<noteq> None
   \<and> users (snd (register sec0 alice_form st_anon)) = [alice]
   \<and> fst (register sec0 alice_form st_anon) = Inr (redirect ''register'')
   \<and> flashes (snd (register sec0 alice_form st_anon)) =
        [(emojize ''Username already exists. :no_entry_sign:'', ''danger'')]"
proof -
  have f: "find (\<lambda>x. username x = ''alice'') (users st_anon) \<noteq> None"
    by (simp add: st_anon_def alice_def)
  have n: "reg_username (formdata alice_form) = Some ''alice''"
    by (simp add: alice_form_def)
  have v: "validate_on_submit alice_form (RegisterForm_validate (RegisterForm_process (formdata alice_form)))"
    by (simp add: alice_form_def form_defs)
  show ?thesis
    using f v st_anon_anonymous register_existing_username [OF f n, of sec0]
    by (simp add: st_anon_def)
qed


text \<open>
  Claim C2 as stated fails for some passwords: with \<^verbatim>\<open>alice\<close> registered, registering
  \<^verbatim>\<open>alice\<close> again with the 3-character password \<^verbatim>\<open>abc\<close> is stopped by the form's
  \<^verbatim>\<open>Length(min=4)\<close>; the answer is the form again and no duplicate username error is
  flashed.
\<close>

theorem register_existing_username_short_password:
  "find (\<lambda>x. username x = ''alice'') (users st_anon) = Some alice
   \<and> reg_username (formdata short_password_form) = Some ''alice''
   \<and> reg_password (formdata short_password_form) = Some ''abc''
   \<and> fst (register sec0 short_password_form st_anon) =
        Inr (render_template ''register.html'' ctx_form)
   \<and> flashes (snd (register sec0 short_password_form st_anon)) = []"
  by (simp add: example_defs register_def auth_defs form_defs)


subsection \<open>Logging in as a registered user\<close>

lemma find_append_Some: "find P xs = Some x \<Longrightarrow> find P (xs @ ys) = Some x"
  by (induction xs) (auto split: if_splits)

lemma find_append_None: "find P xs = None \<Longrightarrow> find P (xs @ [y]) = (if P y then Some y else None)"
  by (induction xs) (auto split: if_splits)

lemma find_Some_holds: "find P xs = Some x \<Longrightarrow> P x \<and> x \<in> set xs"
  by (induction xs) (auto split: if_splits)

lemma find_by_id_member: "x \<in> set xs \<Longrightarrow> find (\<lambda>u. user_id u = user_id x) xs \<noteq> None"
  by (induction xs) auto

text \<open>A password that passes the registration form passes the login form.\<close>

lemma registered_credentials_pass_login:
  assumes "RegisterForm_validate
      \<lparr>reg_username = Some un, reg_password = Some pw, reg_confirm_password = c\<rparr>"
  shows "LoginForm_validate \<lparr>login_username = Some un, login_password = Some pw\<rparr>"
  using assms by (simp add: RegisterForm_validate_def LoginForm_validate_def)

lemma RegisterForm_process_id: "RegisterForm_process f = f"
  by (cases f) (simp add: RegisterForm_process_def process_string_def split: option.splits)

text \<open>What a successful registration leaves behind.\<close>

lemma register_success_registers:
  assumes "fst (register sec req st) = Inr (redirect ''login'')"
  shows "\<exists>un pw usr. formdata req =
            \<lparr>reg_username = Some un, reg_password = Some pw, reg_confirm_password = Some pw\<rparr>
         \<and> RegisterForm_validate (formdata req)
         \<and> find (\<lambda>x. username x = un) (users (snd (register sec req st))) = Some usr
         \<and> password_hash usr = generate_password_hash sec pw"
proof (cases "current_user st")
  case (Pair cu st1)
  obtain a b c where f: "formdata req = \<lparr>reg_username = a, reg_password = b, reg_confirm_password = c\<rparr>"
    by (cases "formdata req") auto
  note proc = RegisterForm_process_id
  show ?thesis
  proof (cases "validate_on_submit req (RegisterForm_validate (formdata req))")
    case False
    then show ?thesis using assms Pair
      by (simp add: register_def proc Let_def split: option.splits)
  next
    case True
    then have v: "RegisterForm_validate (formdata req)" by (simp add: validate_on_submit_def)
    then obtain un pw where a: "a = Some un" and b: "b = Some pw" and c: "c = Some pw"
      using f by (auto simp: RegisterForm_validate_def DataRequired_str_def EqualTo_def
          split: option.splits)
    have none: "find (\<lambda>x. username x = un) (users st1) = None"
      using assms Pair True
      by (auto simp: register_def proc Let_def f a b c User_query_filter_by_first_def
          split: option.splits)
    let ?new = "\<lparr>user_id = next_id (map user_id (users st1)), username = un,
                  password_hash = generate_password_hash sec pw\<rparr>"
    have "users (snd (register sec req st)) = users st1 @ [?new]"
      using assms Pair True none
      by (simp add: register_def proc Let_def f a b c User_query_filter_by_first_def
          User_insert_def flash_def log_query_def split: option.splits)
    then have "find (\<lambda>x. username x = un) (users (snd (register sec req st))) = Some ?new"
      using find_append_None [OF none, of ?new] by simp
    then show ?thesis using f a b c v by auto
  qed
qed

text \<open>
  Claim C3, as the code has it. Take a registered user: the row \<open>usr\<close> the store finds
  under the username \<open>un\<close>, holding the hash of the password \<open>pw\<close>, where \<open>un\<close> and
  \<open>pw\<close> passed the registration form (\<open>register_success_registers\<close>: every successful
  registration leaves exactly this). Let the hashing functions agree on \<open>pw\<close>. For a
  login submission with that username from a client that is not logged in:
  \<^item> with the password \<open>pw\<close>, login succeeds: a redirect to the list, and the session
    holds the user's id;
  \<^item> with a password \<open>pw'\<close> that the hash check refuses, the session is unchanged, the
    client stays unauthenticated and the login page is rendered again; the invalid
    credentials message is flashed when \<open>pw'\<close> is not blank, and nothing is flashed
    when it is blank (then the form's validation fails before any check).
\<close>

theorem login_registered_user:
  assumes "find (\<lambda>x. username x = un) (users st) = Some usr"
    and "password_hash usr = generate_password_hash sec pw"
    and "RegisterForm_validate
           \<lparr>reg_username = Some un, reg_password = Some pw, reg_confirm_password = Some pw\<rparr>"
    and "check_password_hash sec (generate_password_hash sec pw) pw"
    and "\<not> is_authenticated st"
    and "request_method req = POST" and "csrf_valid req"
    and "login_username (formdata req) = Some un"
    and "login_password (formdata req) = Some pw'"
  shows "(pw' = pw \<longrightarrow>
            fst (login sec req st) = Inr (redirect ''index'')
          \<and> session_user_id (snd (login sec req st)) = Some (user_id usr)
          \<and> is_authenticated (snd (login sec req st)))
       \<and> (\<not> check_password_hash sec (password_hash usr) pw' \<longrightarrow>
            fst (login sec req st) = Inr (render_template ''login.html'' ctx_form)
          \<and> session_user_id (snd (login sec req st)) = session_user_id st
          \<and> \<not> is_authenticated (snd (login sec req st))
          \<and> flashes (snd (login sec req st)) = flashes st @
              (if strip pw' \<noteq> []
               then [(emojize ''Invalid username or password. :warning:'', ''danger'')]
               else []))"
proof -
  obtain st1 where cu: "current_user st = (None, st1)"
    using assms(5) by (cases "current_user st") (auto simp: is_authenticated_def)
  have fr: "users st1 = users st" "session_user_id st1 = session_user_id st"
    "flashes st1 = flashes st"
    using cu current_user_users [of st] current_user_session [of st] current_user_flashes [of st]
    by simp_all
  have form: "LoginForm_process (formdata req) =
      \<lparr>login_username = Some un, login_password = Some pw'\<rparr>"
    using assms(8,9) by (simp add: LoginForm_process_def process_string_def)
  have uname_ok: "DataRequired_str (Some un) \<and> Length_validator 4 150 (Some un)"
    using assms(3) by (simp add: RegisterForm_validate_def)
  have pw_ok: "strip pw \<noteq> []"
    using assms(3) by (simp add: RegisterForm_validate_def DataRequired_str_def)
  have valid: "validate_on_submit req
      (LoginForm_validate \<lparr>login_username = Some un, login_password = Some pw'\<rparr>) =
      (strip pw' \<noteq> [])"
    using assms(6,7) uname_ok
    by (auto simp: validate_on_submit_def LoginForm_validate_def DataRequired_str_def strip_def)
  have found: "User_query_filter_by_first (Some un) st1 =
      (Some usr, log_query (Q_user_filter_by (Some un)) st1)"
    using assms(1) fr by (simp add: User_query_filter_by_first_def)
  have mem: "find (\<lambda>u. user_id u = user_id usr) (users st) \<noteq> None"
    using find_Some_holds [OF assms(1)] find_by_id_member by blast
  have anon1: "\<not> is_authenticated st'" if "users st' = users st" "session_user_id st' = session_user_id st" for st'
    using that assms(5) is_authenticated_frame by blast
  show ?thesis
  proof (cases "check_password_hash sec (password_hash usr) pw' \<and> strip pw' \<noteq> []")
    case True
    then have run: "login sec req st =
        (Inr (redirect ''index''),
         flash (emojize ''Logged in successfully! :thumbs_up:'') ''success''
           (login_user usr (log_query (Q_user_filter_by (Some un)) st1)))"
      by (simp add: login_def cu form Let_def valid found)
    have "is_authenticated (snd (login sec req st))"
      using mem
      by (auto simp: run is_authenticated_def current_user_def load_user_def User_query_get_def
          flash_def login_user_def log_query_def fr)
    then show ?thesis
      using True
      by (simp add: run flash_def login_user_def log_query_def)
  next
    case False
    have res: "fst (login sec req st) = Inr (render_template ''login.html'' ctx_form)"
      and sess: "session_user_id (snd (login sec req st)) = session_user_id st"
      and us: "users (snd (login sec req st)) = users st"
      and fl: "flashes (snd (login sec req st)) = flashes st @
                 (if strip pw' \<noteq> []
                  then [(emojize ''Invalid username or password. :warning:'', ''danger'')]
                  else [])"
      using False
      by (auto simp: login_def cu form Let_def valid found flash_def log_query_def fr)
    have "pw' \<noteq> pw"
      using False pw_ok assms(2,4) by auto
    then show ?thesis
      using res sess fl anon1 [OF us sess] by simp
  qed
qed

theorem login_registered_user_witness:
  "users (snd (register sec0 alice_form st_empty)) = users st_anon
   \<and> fst (login sec0 (alice_login ''secret'') st_anon) = Inr (redirect ''index'')
   \<and> session_user_id (snd (login sec0 (alice_login ''secret'') st_anon)) = Some 1
   \<and> fst (login sec0 (alice_login ''wrong'') st_anon) = Inr (render_template ''login.html'' ctx_form)
   \<and> session_user_id (snd (login sec0 (alice_login ''wrong'') st_anon)) = None
   \<and> flashes (snd (login sec0 (alice_login ''wrong'') st_anon)) =
       [(emojize ''Invalid username or password. :warning:'', ''danger'')]"
proof -
  have r: "users (snd (register sec0 alice_form st_empty)) = users st_anon"
    by (simp add: example_defs register_def auth_defs store_defs form_defs)
  have f: "find (\<lambda>x. username x = ''alice'') (users st_anon) = Some alice"
    by (simp add: st_anon_def alice_def)
  have h: "password_hash alice = generate_password_hash sec0 ''secret''"
    by (simp add: alice_def sec0_def)
  have v: "RegisterForm_validate
           \<lparr>reg_username = Some ''alice'', reg_password = Some ''secret'',
            reg_confirm_password = Some ''secret''\<rparr>"
    by (simp add: form_defs)
  have c: "check_password_hash sec0 (generate_password_hash sec0 ''secret'') ''secret''"
    by (simp add: sec0_def)
  have q: "request_method (alice_login p) = POST" "csrf_valid (alice_login p)"
    "login_username (formdata (alice_login p)) = Some ''alice''"
    "login_password (formdata (alice_login p)) = Some p" for p
    by (simp_all add: alice_login_def)
  show ?thesis
    using r
      login_registered_user [OF f h v c st_anon_anonymous q(1) q(2) q(3) q(4), of "''secret''"]
      login_registered_user [OF f h v c st_anon_anonymous q(1) q(2) q(3) q(4), of "''wrong''"]
    by (simp add: alice_def sec0_def st_anon_def strip_def py_isspace_def)
qed

text \<open>
  Claim C3 as stated fails at the empty password: for the registered user \<^verbatim>\<open>alice\<close>,
  the hash check refuses \<^verbatim>\<open>''\<close>, yet the login attempt does not end in the invalid
  credentials error. The form's \<^verbatim>\<open>DataRequired\<close> rejects it first, the hash is never
  checked, and no message is flashed.
\<close>

theorem login_blank_password_not_invalid_credentials:
  "users (snd (register sec0 alice_form st_empty)) = users st_anon
   \<and> \<not> check_password_hash sec0 (password_hash alice) ''''
   \<and> fst (login sec0 (alice_login '''') st_anon) = Inr (render_template ''login.html'' ctx_form)
   \<and> flashes (snd (login sec0 (alice_login '''') st_anon)) = []"
  by (simp add: example_defs register_def login_def auth_defs store_defs form_defs)


subsection \<open>Export\<close>

text \<open>The text of the header row, as the writer formats it.\<close>

lemma header_row_text:
  "csv_format_row (map (csv_text repr_float)
      [V_str ''ID'', V_str ''Name'', V_str ''Quantity'', V_str ''Price'']) =
   ''ID,Name,Quantity,Price'' @ [CHR 0x0D, CHR 0x0A]"
  by (simp add: csv_format_row_def csv_quote_def csv_special_def)

lemma writerow_raises: "writerow repr_float output row = Inl TypeError"
  by (simp add: writerow_def)

text \<open>
  Claim C4 fails on the code. The export of a logged-in client never produces a CSV
  file: the writer formats the header row as text, and the \<^verbatim>\<open>BytesIO\<close> it writes to
  refuses text, so the first \<^verbatim>\<open>writerow\<close> raises \<^verbatim>\<open>TypeError\<close>, whatever the table
  holds.
\<close>

theorem export_raises_type_error:
  assumes "is_authenticated st"
  shows "fst (export_items repr_float st) = Inl TypeError"
  using assms
  by (simp add: export_items_def login_required_authenticated Item_query_all_def writerow_raises)

theorem export_raises_type_error_witness:
  "is_authenticated st_shop \<and> items st_shop = [apple, pear]
   \<and> fst (export_items repr_stub st_shop) = Inl TypeError"
  using st_shop_authenticated export_raises_type_error [OF st_shop_authenticated, of repr_stub]
  by (simp add: st_shop_def)

end
